theory Spec2Isabelle
  imports Main "HOL-Library.Sublist" "HOL-Library.Stream" "HOL-Library.Multiset"
begin

section \<open>Python values and built-ins used by the script\<close>

text \<open>
  Exceptions are values.  \<open>KeyError\<close> is what \<^verbatim>\<open>d[k]\<close> raises on a missing key,
  \<open>ValueError\<close> what \<^verbatim>\<open>max\<close> raises on an empty iterable and \<^verbatim>\<open>random.sample\<close>
  on a sample larger than the population.  \<open>InvalidParameter\<close> is the error the
  specification names; no statement of the script raises it.
\<close>

datatype pyerror = KeyError string | ValueError | InvalidParameter

subsection \<open>Dictionaries\<close>

text \<open>
  A Python \<^verbatim>\<open>dict\<close> iterates in insertion order, and \<^verbatim>\<open>max\<close> over its items depends
  on that order, so a dictionary is its list of items in insertion order.
\<close>

text \<open>\<^verbatim>\<open>k in d\<close>\<close>

fun dict_contains :: "(string \<times> 'v) list \<Rightarrow> string \<Rightarrow> bool" where
  "dict_contains [] k = False"
| "dict_contains ((k', v) # d) k = (if k' = k then True else dict_contains d k)"

text \<open>\<^verbatim>\<open>d[k]\<close>, raising \<^verbatim>\<open>KeyError(k)\<close> on a missing key\<close>

fun dict_getitem :: "(string \<times> 'v) list \<Rightarrow> string \<Rightarrow> pyerror + 'v" where
  "dict_getitem [] k = Inl (KeyError k)"
| "dict_getitem ((k', v) # d) k = (if k' = k then Inr v else dict_getitem d k)"

text \<open>\<^verbatim>\<open>d.get(k, default)\<close>\<close>

fun dict_get :: "(string \<times> 'v) list \<Rightarrow> string \<Rightarrow> 'v \<Rightarrow> 'v" where
  "dict_get [] k dflt = dflt"
| "dict_get ((k', v) # d) k dflt = (if k' = k then v else dict_get d k dflt)"

text \<open>\<^verbatim>\<open>d[k] = v\<close>: an existing key keeps its position, a new key goes last\<close>

fun dict_setitem :: "(string \<times> 'v) list \<Rightarrow> string \<Rightarrow> 'v \<Rightarrow> (string \<times> 'v) list" where
  "dict_setitem [] k v = [(k, v)]"
| "dict_setitem ((k', v') # d) k v =
     (if k' = k then (k', v) # d else (k', v') # dict_setitem d k v)"

definition dict_keys :: "(string \<times> 'v) list \<Rightarrow> string list" where
  "dict_keys d = map fst d"

definition dict_values :: "(string \<times> 'v) list \<Rightarrow> 'v list" where
  "dict_values d = map snd d"

text \<open>\<^verbatim>\<open>sum(xs)\<close> on integers\<close>

definition py_sum :: "int list \<Rightarrow> int" where
  "py_sum xs = foldl (+) 0 xs"

text \<open>
  \<^verbatim>\<open>max(xs, key=key)\<close>: the running maximum is replaced only by a strictly greater
  element, so of several maximal elements the first in iteration order is returned;
  an empty iterable raises \<^verbatim>\<open>ValueError\<close>.
\<close>

fun max_loop :: "('a \<Rightarrow> int) \<Rightarrow> 'a \<Rightarrow> 'a list \<Rightarrow> 'a" where
  "max_loop key best [] = best"
| "max_loop key best (x # xs) = max_loop key (if key best < key x then x else best) xs"

definition py_max :: "'a list \<Rightarrow> ('a \<Rightarrow> int) \<Rightarrow> pyerror + 'a" where
  "py_max xs key = (case xs of [] \<Rightarrow> Inl ValueError | x # rest \<Rightarrow> Inr (max_loop key x rest))"

section \<open>The store\<close>

text \<open>
  The tracker's dictionary and list are mutable objects that \<^verbatim>\<open>get_statistics\<close>
  hands out by reference, so objects live in a store and fields hold addresses.
  Dictionaries and lists have a store each; \<open>fresh\<close> is the next unused address.
\<close>

type_synonym addr = nat

record heap =
  dicts :: "addr \<Rightarrow> (string \<times> int) list"
  lists :: "addr \<Rightarrow> string list"
  fresh :: addr

definition empty_heap :: heap where
  "empty_heap = \<lparr>dicts = (\<lambda>a. []), lists = (\<lambda>a. []), fresh = 0\<rparr>"

section \<open>ToolUsageTracker\<close>

text \<open>The names of the four tools in \<^verbatim>\<open>tools\<close>, in list order (a tool is named after its function).\<close>

definition tools :: "string list" where
  "tools = [''consult_demogorgon'', ''check_hawkins_records'',
            ''cast_interdimensional_spell'', ''gather_party_wisdom'']"

record tracker =
  usage_count :: addr
  tool_sequences :: addr

text \<open>
  \<^verbatim>\<open>__init__\<close>, with the tool list it reads as a parameter:
  \<^verbatim>\<open>self.usage_count = {tool.name: 0 for tool in tools}; self.tool_sequences = []\<close>.
\<close>

definition ToolUsageTracker_init :: "string list \<Rightarrow> heap \<Rightarrow> tracker \<times> heap" where
  "ToolUsageTracker_init tool_names h =
     (let a = fresh h;
          h1 = h\<lparr>dicts := (dicts h)(a := foldl (\<lambda>d n. dict_setitem d n 0) [] tool_names),
                 fresh := Suc a\<rparr>;
          b = fresh h1;
          h2 = h1\<lparr>lists := (lists h1)(b := []), fresh := Suc b\<rparr>
      in (\<lparr>usage_count = a, tool_sequences = b\<rparr>, h2))"

text \<open>
  \<^verbatim>\<open>on_tool_start(self, serialized, input_str)\<close>.  \<^verbatim>\<open>self.usage_count[tool_name] += 1\<close>
  reads the item, which raises \<^verbatim>\<open>KeyError\<close> on a missing key, and stores it back.
\<close>

definition on_tool_start ::
  "tracker \<Rightarrow> (string \<times> string) list \<Rightarrow> string \<Rightarrow> heap \<Rightarrow> pyerror + heap" where
  "on_tool_start self serialized input_str h =
     (let tool_name = dict_get serialized ''name'' ''unknown''
      in if dict_contains (dicts h (usage_count self)) tool_name then
           (case dict_getitem (dicts h (usage_count self)) tool_name of
              Inl e \<Rightarrow> Inl e
            | Inr c \<Rightarrow>
                let h1 = h\<lparr>dicts := (dicts h)(usage_count self :=
                             dict_setitem (dicts h (usage_count self)) tool_name (c + 1))\<rparr>
                in Inr (h1\<lparr>lists := (lists h1)(tool_sequences self :=
                             lists h1 (tool_sequences self) @ [tool_name])\<rparr>))
         else Inr h)"

text \<open>
  The dictionary \<^verbatim>\<open>get_statistics\<close> returns; \<open>tool_counts\<close> and \<open>stats_tool_sequences\<close>
  (key \<^verbatim>\<open>"tool_sequences"\<close>) hold references.
\<close>

record statistics =
  total_tool_calls :: int
  tool_counts :: addr
  most_used :: "string option"
  stats_tool_sequences :: addr

definition get_statistics :: "tracker \<Rightarrow> heap \<Rightarrow> (pyerror + statistics) \<times> heap" where
  "get_statistics self h =
     (let total = py_sum (dict_values (dicts h (usage_count self)));
          counts = usage_count self
      in case (if dicts h (usage_count self) \<noteq> []
               then (case py_max (dicts h (usage_count self)) snd of
                       Inl e \<Rightarrow> Inl e
                     | Inr item \<Rightarrow> Inr (Some (fst item)))
               else Inr None) of
           Inl e \<Rightarrow> (Inl e, h)
         | Inr m \<Rightarrow>
             (Inr \<lparr>total_tool_calls = total, tool_counts = counts, most_used = m,
                   stats_tool_sequences = tool_sequences self\<rparr>, h))"

text \<open>
  The agent runtime calls \<^verbatim>\<open>on_tool_start\<close> once per tool invocation, with the
  serialized tool and its input; an exception would end the run.
\<close>

fun run_events ::
  "tracker \<Rightarrow> ((string \<times> string) list \<times> string) list \<Rightarrow> heap \<Rightarrow> pyerror + heap" where
  "run_events self [] h = Inr h"
| "run_events self (ev # evs) h =
     (case on_tool_start self (fst ev) (snd ev) h of
        Inl e \<Rightarrow> Inl e
      | Inr h' \<Rightarrow> run_events self evs h')"

section \<open>The tools\<close>

subsection \<open>Strings\<close>




text \<open>\<^verbatim>\<open>sep.join(xs)\<close>\<close>

fun str_join :: "string \<Rightarrow> string list \<Rightarrow> string" where
  "str_join sep [] = []"
| "str_join sep [x] = x"
| "str_join sep (x # y # ys) = x @ sep @ str_join sep (y # ys)"

subsection \<open>Keyword lookup: \<^verbatim>\<open>check_hawkins_records\<close> and \<^verbatim>\<open>gather_party_wisdom\<close>\<close>






subsection \<open>Random selection: \<^verbatim>\<open>cast_interdimensional_spell\<close>\<close>

text \<open>
  The state of the module-level random generator is the stream of the numbers it will
  draw; \<^verbatim>\<open>randbelow(n)\<close> takes the next one, reduced below \<open>n\<close>.  Any sequence of
  outcomes of the generator is the outcome on some stream.
\<close>

type_synonym rng = "nat stream"

definition randbelow :: "nat \<Rightarrow> rng \<Rightarrow> nat \<times> rng" where
  "randbelow n g = (if n = 0 then 0 else shd g mod n, stl g)"

text \<open>
  \<^verbatim>\<open>random.sample(population, k)\<close> for a short population (the standard library's pool
  branch): \<^verbatim>\<open>for i in range(k): j = randbelow(n - i); result[i] = pool[j];
  pool[j] = pool[n - i - 1]\<close>, after \<^verbatim>\<open>ValueError\<close> for a sample larger than the
  population.
\<close>

definition sample_step ::
  "nat \<Rightarrow> 'a list \<times> 'a list \<times> rng \<Rightarrow> nat \<Rightarrow> 'a list \<times> 'a list \<times> rng" where
  "sample_step n st i =
     (case st of (result, pool, g) \<Rightarrow>
        (case randbelow (n - i) g of (j, g') \<Rightarrow>
           (result @ [pool ! j], pool[j := pool ! (n - i - 1)], g')))"

definition random_sample :: "'a list \<Rightarrow> nat \<Rightarrow> rng \<Rightarrow> (pyerror + 'a list) \<times> rng" where
  "random_sample population k g =
     (let n = length population
      in if n < k then (Inl ValueError, g)
         else (case foldl (sample_step n) ([], population, g) [0..<k] of
                 (result, pool, g') \<Rightarrow> (Inr result, g')))"

definition spells :: "string \<Rightarrow> string list" where
  "spells problem =
     [''Try chanting 'Becma Becma Becma' three times while holding a Walkman. This might recalibrate the interdimensional frequencies related to: '' @ problem,
      ''Create a salt circle and place a compass in the center. The magnetic anomalies might help stabilize: '' @ problem,
      ''Play 'Running Up That Hill' backwards at the exact location of the issue. The temporal resonance could fix: '' @ problem,
      ''Gather three items: a lighter, a compass, and something personal. Arrange them in a triangle while thinking about: '' @ problem @ ''.'']"

text \<open>
  The list \<^verbatim>\<open>selected\<close> of \<^verbatim>\<open>cast_interdimensional_spell(problem, creativity_level)\<close>;
  \<open>None\<close> is the call that leaves \<^verbatim>\<open>creativity_level\<close> at its default.
\<close>

definition selected_spells ::
  "string \<Rightarrow> string option \<Rightarrow> rng \<Rightarrow> (pyerror + string list) \<times> rng" where
  "selected_spells problem creativity_level g =
     (let level = (case creativity_level of None \<Rightarrow> ''medium'' | Some l \<Rightarrow> l)
      in case dict_getitem [(''low'', 1), (''medium'', 2), (''high'', 3)] level of
           Inl e \<Rightarrow> (Inl e, g)
         | Inr creativity_multiplier \<Rightarrow>
             random_sample (spells problem)
               (min creativity_multiplier (length (spells problem))) g)"

definition cast_interdimensional_spell ::
  "string \<Rightarrow> string option \<Rightarrow> rng \<Rightarrow> (pyerror + string) \<times> rng" where
  "cast_interdimensional_spell problem creativity_level g =
     (case selected_spells problem creativity_level g of
        (Inl e, g') \<Rightarrow> (Inl e, g')
      | (Inr selected, g') \<Rightarrow> (Inr (str_join [CHR 0x0A] selected), g'))"

section \<open>Facts about the built-ins\<close>


lemma py_sum_sum_list: "py_sum xs = sum_list xs"
proof -
  have "foldl (+) a xs = a + sum_list xs" for a :: int
    by (induction xs arbitrary: a) simp_all
  then show ?thesis by (simp add: py_sum_def)
qed

lemma dict_contains_keys: "dict_contains d k \<longleftrightarrow> k \<in> set (dict_keys d)"
  by (induction d) (auto simp: dict_keys_def)

lemma dict_getitem_present: "dict_contains d k \<Longrightarrow> \<exists>c. dict_getitem d k = Inr c"
  by (induction d) auto

lemma dict_getitem_absent: "\<not> dict_contains d k \<Longrightarrow> dict_getitem d k = Inl (KeyError k)"
  by (induction d) auto

lemma dict_keys_setitem_present:
  "dict_contains d k \<Longrightarrow> dict_keys (dict_setitem d k v) = dict_keys d"
  by (induction d) (auto simp: dict_keys_def)

lemma dict_keys_setitem_absent:
  "\<not> dict_contains d k \<Longrightarrow> dict_keys (dict_setitem d k v) = dict_keys d @ [k]"
  by (induction d) (auto simp: dict_keys_def)

lemma dict_getitem_setitem_same: "dict_getitem (dict_setitem d k v) k = Inr v"
  by (induction d) auto

lemma dict_getitem_setitem_other:
  "k' \<noteq> k \<Longrightarrow> dict_getitem (dict_setitem d k v) k' = dict_getitem d k'"
  by (induction d) auto

lemma sum_values_setitem:
  "dict_getitem d k = Inr c \<Longrightarrow>
   sum_list (dict_values (dict_setitem d k v)) = sum_list (dict_values d) - c + (v::int)"
  by (induction d) (auto simp: dict_values_def)

lemma comprehension_keys:
  "set (dict_keys (foldl (\<lambda>d n. dict_setitem d n v) d0 names)) = set (dict_keys d0) \<union> set names"
proof (induction names arbitrary: d0)
  case Nil
  then show ?case by simp
next
  case (Cons n names)
  show ?case
    by (cases "dict_contains d0 n")
       (auto simp: Cons.IH dict_keys_setitem_present dict_keys_setitem_absent dict_contains_keys)
qed

lemma in_setitem: "(k', x) \<in> set (dict_setitem d k v) \<Longrightarrow> x = v \<or> (k', x) \<in> set d"
  by (induction d) (auto split: if_splits)

lemma values_setitem_const:
  "set (dict_values d) \<subseteq> {v} \<Longrightarrow> set (dict_values (dict_setitem d k v)) \<subseteq> {v}"
  using in_setitem[of _ _ d k v] by (fastforce simp: dict_values_def)

lemma comprehension_values:
  "set (dict_values d0) \<subseteq> {v} \<Longrightarrow>
   set (dict_values (foldl (\<lambda>d n. dict_setitem d n v) d0 names)) \<subseteq> {v}"
proof (induction names arbitrary: d0)
  case Nil
  then show ?case by simp
next
  case (Cons n names)
  then show ?case using values_setitem_const[of d0 v n] by simp
qed

lemma sum_list_all_zero: "set xs \<subseteq> {0::int} \<Longrightarrow> sum_list xs = 0"
  by (induction xs) auto

lemma comprehension_sum:
  "sum_list (dict_values (foldl (\<lambda>d n. dict_setitem d n (0::int)) [] names)) = 0"
  using comprehension_values[of "[]" 0 names] by (intro sum_list_all_zero) (simp add: dict_values_def)

subsection \<open>One call of \<^verbatim>\<open>on_tool_start\<close>\<close>

lemma on_tool_start_registered:
  assumes "dict_contains (dicts h (usage_count self)) (dict_get serialized ''name'' ''unknown'')"
  shows "\<exists>c. dict_getitem (dicts h (usage_count self)) (dict_get serialized ''name'' ''unknown'') = Inr c \<and>
     on_tool_start self serialized input_str h =
       Inr (h\<lparr>dicts := (dicts h)(usage_count self :=
                 dict_setitem (dicts h (usage_count self)) (dict_get serialized ''name'' ''unknown'') (c + 1)),
              lists := (lists h)(tool_sequences self :=
                 lists h (tool_sequences self) @ [dict_get serialized ''name'' ''unknown''])\<rparr>)"
proof -
  from dict_getitem_present[OF assms] obtain c where
    c: "dict_getitem (dicts h (usage_count self)) (dict_get serialized ''name'' ''unknown'') = Inr c"
    by blast
  show ?thesis using assms c by (simp add: on_tool_start_def Let_def)
qed

lemma on_tool_start_unregistered:
  "\<not> dict_contains (dicts h (usage_count self)) (dict_get serialized ''name'' ''unknown'') \<Longrightarrow>
   on_tool_start self serialized input_str h = Inr h"
  by (simp add: on_tool_start_def Let_def)

lemma on_tool_start_step:
  "\<exists>h'. on_tool_start self serialized input_str h = Inr h' \<and>
        dict_keys (dicts h' (usage_count self)) = dict_keys (dicts h (usage_count self)) \<and>
        (if dict_contains (dicts h (usage_count self)) (dict_get serialized ''name'' ''unknown'')
         then sum_list (dict_values (dicts h' (usage_count self))) =
                sum_list (dict_values (dicts h (usage_count self))) + 1 \<and>
              lists h' (tool_sequences self) =
                lists h (tool_sequences self) @ [dict_get serialized ''name'' ''unknown'']
         else h' = h)"
proof (cases "dict_contains (dicts h (usage_count self)) (dict_get serialized ''name'' ''unknown'')")
  case True
  from on_tool_start_registered[OF True, of input_str] obtain c where
    c: "dict_getitem (dicts h (usage_count self)) (dict_get serialized ''name'' ''unknown'') = Inr c"
    and s: "on_tool_start self serialized input_str h =
       Inr (h\<lparr>dicts := (dicts h)(usage_count self :=
                 dict_setitem (dicts h (usage_count self)) (dict_get serialized ''name'' ''unknown'') (c + 1)),
              lists := (lists h)(tool_sequences self :=
                 lists h (tool_sequences self) @ [dict_get serialized ''name'' ''unknown''])\<rparr>)"
    by blast
  show ?thesis
    using True by (simp add: s dict_keys_setitem_present sum_values_setitem[OF c])
next
  case False
  then show ?thesis by (simp add: on_tool_start_unregistered)
qed


subsection \<open>A run of calls\<close>

lemma run_events_invariant:
  "\<exists>h'. run_events self evs h = Inr h' \<and>
        dict_keys (dicts h' (usage_count self)) = dict_keys (dicts h (usage_count self)) \<and>
        sum_list (dict_values (dicts h' (usage_count self))) - int (length (lists h' (tool_sequences self))) =
          sum_list (dict_values (dicts h (usage_count self))) - int (length (lists h (tool_sequences self))) \<and>
        ((\<forall>ev\<in>set evs. dict_get (fst ev) ''name'' ''unknown'' \<in> set (dict_keys (dicts h (usage_count self)))) \<longrightarrow>
           length (lists h' (tool_sequences self)) = length (lists h (tool_sequences self)) + length evs)"
proof (induction evs arbitrary: h)
  case Nil
  show ?case by simp
next
  case (Cons ev evs)
  from on_tool_start_step[of self "fst ev" "snd ev" h] obtain h1 where
    s: "on_tool_start self (fst ev) (snd ev) h = Inr h1"
    and k: "dict_keys (dicts h1 (usage_count self)) = dict_keys (dicts h (usage_count self))"
    and e: "if dict_contains (dicts h (usage_count self)) (dict_get (fst ev) ''name'' ''unknown'')
         then sum_list (dict_values (dicts h1 (usage_count self))) =
                sum_list (dict_values (dicts h (usage_count self))) + 1 \<and>
              lists h1 (tool_sequences self) =
                lists h (tool_sequences self) @ [dict_get (fst ev) ''name'' ''unknown'']
         else h1 = h"
    by blast
  from Cons.IH[of h1] obtain h' where
    r: "run_events self evs h1 = Inr h'"
    and k': "dict_keys (dicts h' (usage_count self)) = dict_keys (dicts h1 (usage_count self))"
    and d': "sum_list (dict_values (dicts h' (usage_count self))) - int (length (lists h' (tool_sequences self))) =
          sum_list (dict_values (dicts h1 (usage_count self))) - int (length (lists h1 (tool_sequences self)))"
    and n': "(\<forall>ev\<in>set evs. dict_get (fst ev) ''name'' ''unknown'' \<in> set (dict_keys (dicts h1 (usage_count self)))) \<longrightarrow>
           length (lists h' (tool_sequences self)) = length (lists h1 (tool_sequences self)) + length evs"
    by blast
  have run: "run_events self (ev # evs) h = Inr h'" by (simp add: s r)
  have diff: "sum_list (dict_values (dicts h1 (usage_count self))) - int (length (lists h1 (tool_sequences self))) =
          sum_list (dict_values (dicts h (usage_count self))) - int (length (lists h (tool_sequences self)))"
    using e by (simp split: if_splits)
  have len: "dict_get (fst ev) ''name'' ''unknown'' \<in> set (dict_keys (dicts h (usage_count self))) \<Longrightarrow>
     length (lists h1 (tool_sequences self)) = Suc (length (lists h (tool_sequences self)))"
    using e by (simp add: dict_contains_keys)
  show ?case
    using run k k' d' diff n' len by auto
qed

lemma init_state:
  assumes "ToolUsageTracker_init tool_names h0 = (self, h)"
  shows "dicts h (usage_count self) = foldl (\<lambda>d n. dict_setitem d n 0) [] tool_names"
    and "lists h (tool_sequences self) = []"
  using assms by (auto simp: ToolUsageTracker_init_def Let_def)

section \<open>The tracker's invariant\<close>

text \<open>
  Claim C1.  After any sequence of \<^verbatim>\<open>on_tool_start\<close> calls on a freshly constructed
  tracker no call raises, \<^verbatim>\<open>sum(usage_count.values()) == len(tool_sequences)\<close>
  and the keys of \<^verbatim>\<open>usage_count\<close> are exactly the tool names given at construction;
  when every event names a registered tool, both numbers are the number of events.
\<close>

theorem tracker_sum_invariant:
  assumes "ToolUsageTracker_init tool_names h0 = (self, h)"
  shows "\<exists>h'. run_events self evs h = Inr h' \<and>
     py_sum (dict_values (dicts h' (usage_count self))) = int (length (lists h' (tool_sequences self))) \<and>
     set (dict_keys (dicts h' (usage_count self))) = set tool_names \<and>
     ((\<forall>ev\<in>set evs. dict_get (fst ev) ''name'' ''unknown'' \<in> set tool_names) \<longrightarrow>
        py_sum (dict_values (dicts h' (usage_count self))) = int (length evs) \<and>
        length (lists h' (tool_sequences self)) = length evs)"
proof -
  have k0: "set (dict_keys (dicts h (usage_count self))) = set tool_names"
    using comprehension_keys[of 0 "[]" tool_names]
    by (simp add: init_state(1)[OF assms] dict_keys_def)
  have s0: "sum_list (dict_values (dicts h (usage_count self))) = 0"
    by (simp add: init_state(1)[OF assms] comprehension_sum)
  have l0: "lists h (tool_sequences self) = []"
    by (rule init_state(2)[OF assms])
  from run_events_invariant[of self evs h] obtain h' where
    r: "run_events self evs h = Inr h'"
    and k: "dict_keys (dicts h' (usage_count self)) = dict_keys (dicts h (usage_count self))"
    and d: "sum_list (dict_values (dicts h' (usage_count self))) - int (length (lists h' (tool_sequences self))) =
          sum_list (dict_values (dicts h (usage_count self))) - int (length (lists h (tool_sequences self)))"
    and n: "(\<forall>ev\<in>set evs. dict_get (fst ev) ''name'' ''unknown'' \<in> set (dict_keys (dicts h (usage_count self)))) \<longrightarrow>
           length (lists h' (tool_sequences self)) = length (lists h (tool_sequences self)) + length evs"
    by blast
  have eq: "py_sum (dict_values (dicts h' (usage_count self))) = int (length (lists h' (tool_sequences self)))"
    using d by (simp add: py_sum_sum_list s0 l0)
  show ?thesis
    using r eq k k0 n l0 by auto
qed

theorem tracker_sum_invariant_witness:
  "\<exists>h'. run_events (fst (ToolUsageTracker_init tools empty_heap))
           [([(''name'', ''gather_party_wisdom'')], ''portal''),
            ([(''name'', ''consult_demogorgon'')], ''schedule'')]
           (snd (ToolUsageTracker_init tools empty_heap)) = Inr h' \<and>
     py_sum (dict_values (dicts h' (usage_count (fst (ToolUsageTracker_init tools empty_heap))))) = 2 \<and>
     length (lists h' (tool_sequences (fst (ToolUsageTracker_init tools empty_heap)))) = 2 \<and>
     set (dict_keys (dicts h' (usage_count (fst (ToolUsageTracker_init tools empty_heap))))) = set tools"
proof -
  let ?t = "fst (ToolUsageTracker_init tools empty_heap)"
  let ?h = "snd (ToolUsageTracker_init tools empty_heap)"
  let ?evs = "[([(''name'', ''gather_party_wisdom'')], ''portal''),
               ([(''name'', ''consult_demogorgon'')], ''schedule'')]"
  have reg: "\<forall>ev\<in>set ?evs. dict_get (fst ev) ''name'' ''unknown'' \<in> set tools"
    by (simp add: tools_def)
  have init: "ToolUsageTracker_init tools empty_heap = (?t, ?h)"
    by simp
  from tracker_sum_invariant[OF init, of ?evs] reg show ?thesis
    by auto
qed


section \<open>Counting a call\<close>

lemma on_tool_start_registered_effect:
  assumes "dict_contains (dicts h (usage_count self)) (dict_get serialized ''name'' ''unknown'')"
  shows "\<exists>c h'. dict_getitem (dicts h (usage_count self)) (dict_get serialized ''name'' ''unknown'') = Inr c \<and>
       on_tool_start self serialized input_str h = Inr h' \<and>
       dict_getitem (dicts h' (usage_count self)) (dict_get serialized ''name'' ''unknown'') = Inr (c + 1) \<and>
       (\<forall>k. k \<noteq> dict_get serialized ''name'' ''unknown'' \<longrightarrow>
            dict_getitem (dicts h' (usage_count self)) k = dict_getitem (dicts h (usage_count self)) k) \<and>
       dict_keys (dicts h' (usage_count self)) = dict_keys (dicts h (usage_count self)) \<and>
       lists h' (tool_sequences self) =
         lists h (tool_sequences self) @ [dict_get serialized ''name'' ''unknown''] \<and>
       (\<forall>a. a \<noteq> usage_count self \<longrightarrow> dicts h' a = dicts h a) \<and>
       (\<forall>a. a \<noteq> tool_sequences self \<longrightarrow> lists h' a = lists h a)"
proof -
  from on_tool_start_registered[OF assms, of input_str] obtain c where
    c: "dict_getitem (dicts h (usage_count self)) (dict_get serialized ''name'' ''unknown'') = Inr c"
    and s: "on_tool_start self serialized input_str h =
       Inr (h\<lparr>dicts := (dicts h)(usage_count self :=
                 dict_setitem (dicts h (usage_count self)) (dict_get serialized ''name'' ''unknown'') (c + 1)),
              lists := (lists h)(tool_sequences self :=
                 lists h (tool_sequences self) @ [dict_get serialized ''name'' ''unknown''])\<rparr>)"
    by blast
  show ?thesis
    using assms
    by (simp add: c s dict_getitem_setitem_same dict_getitem_setitem_other dict_keys_setitem_present)
qed

lemma abaca_example:
  "\<exists>h' st.
     run_events (fst (ToolUsageTracker_init [''a'', ''b'', ''c''] h0))
       [([(''name'', ''a'')], i1), ([(''name'', ''b'')], i2), ([(''name'', ''a'')], i3),
        ([(''name'', ''c'')], i4), ([(''name'', ''a'')], i5)]
       (snd (ToolUsageTracker_init [''a'', ''b'', ''c''] h0)) = Inr h' \<and>
     get_statistics (fst (ToolUsageTracker_init [''a'', ''b'', ''c''] h0)) h' = (Inr st, h') \<and>
     dicts h' (tool_counts st) = [(''a'', 3), (''b'', 1), (''c'', 1)] \<and>
     most_used st = Some ''a'' \<and>
     lists h' (stats_tool_sequences st) = [''a'', ''b'', ''a'', ''c'', ''a''] \<and>
     total_tool_calls st = 5"
  by (simp add: ToolUsageTracker_init_def on_tool_start_def get_statistics_def Let_def
      py_sum_def py_max_def dict_values_def)


text \<open>
  Claim C2.  A call whose tool name is a key of \<^verbatim>\<open>usage_count\<close> raises nothing, adds 1
  to that key's count, leaves every other count, the order of the keys and every other
  object as they were, and appends the name to \<^verbatim>\<open>tool_sequences\<close>.  The events
  \<^verbatim>\<open>a, b, a, c, a\<close> on a tracker of the tools \<^verbatim>\<open>a, b, c\<close> give the counts
  \<^verbatim>\<open>{a: 3, b: 1, c: 1}\<close>, most used \<^verbatim>\<open>a\<close>, the sequence \<^verbatim>\<open>a, b, a, c, a\<close> and 5
  calls in total.
\<close>

theorem on_tool_start_counts_registered:
  "(dict_contains (dicts h (usage_count self)) (dict_get serialized ''name'' ''unknown'') \<longrightarrow>
     (\<exists>c h'. dict_getitem (dicts h (usage_count self)) (dict_get serialized ''name'' ''unknown'') = Inr c \<and>
       on_tool_start self serialized input_str h = Inr h' \<and>
       dict_getitem (dicts h' (usage_count self)) (dict_get serialized ''name'' ''unknown'') = Inr (c + 1) \<and>
       (\<forall>k. k \<noteq> dict_get serialized ''name'' ''unknown'' \<longrightarrow>
            dict_getitem (dicts h' (usage_count self)) k = dict_getitem (dicts h (usage_count self)) k) \<and>
       dict_keys (dicts h' (usage_count self)) = dict_keys (dicts h (usage_count self)) \<and>
       lists h' (tool_sequences self) =
         lists h (tool_sequences self) @ [dict_get serialized ''name'' ''unknown''] \<and>
       (\<forall>a. a \<noteq> usage_count self \<longrightarrow> dicts h' a = dicts h a) \<and>
       (\<forall>a. a \<noteq> tool_sequences self \<longrightarrow> lists h' a = lists h a))) \<and>
   (\<exists>h' st.
     run_events (fst (ToolUsageTracker_init [''a'', ''b'', ''c''] h0))
       [([(''name'', ''a'')], i1), ([(''name'', ''b'')], i2), ([(''name'', ''a'')], i3),
        ([(''name'', ''c'')], i4), ([(''name'', ''a'')], i5)]
       (snd (ToolUsageTracker_init [''a'', ''b'', ''c''] h0)) = Inr h' \<and>
     get_statistics (fst (ToolUsageTracker_init [''a'', ''b'', ''c''] h0)) h' = (Inr st, h') \<and>
     dicts h' (tool_counts st) = [(''a'', 3), (''b'', 1), (''c'', 1)] \<and>
     most_used st = Some ''a'' \<and>
     lists h' (stats_tool_sequences st) = [''a'', ''b'', ''a'', ''c'', ''a''] \<and>
     total_tool_calls st = 5)"
  using on_tool_start_registered_effect[of h self serialized input_str]
    abaca_example[of h0 i1 i2 i3 i4 i5]
  by blast

theorem on_tool_start_counts_registered_witness:
  "dict_contains (dicts (snd (ToolUsageTracker_init tools empty_heap))
      (usage_count (fst (ToolUsageTracker_init tools empty_heap))))
     (dict_get [(''name'', ''check_hawkins_records'')] ''name'' ''unknown'') \<and>
   (\<exists>h'. on_tool_start (fst (ToolUsageTracker_init tools empty_heap))
           [(''name'', ''check_hawkins_records'')] ''portal''
           (snd (ToolUsageTracker_init tools empty_heap)) = Inr h' \<and>
         dict_getitem (dicts h' (usage_count (fst (ToolUsageTracker_init tools empty_heap))))
           ''check_hawkins_records'' = Inr 1 \<and>
         dict_getitem (dicts h' (usage_count (fst (ToolUsageTracker_init tools empty_heap))))
           ''consult_demogorgon'' = Inr 0 \<and>
         lists h' (tool_sequences (fst (ToolUsageTracker_init tools empty_heap))) =
           [''check_hawkins_records''])"
proof -
  let ?t = "fst (ToolUsageTracker_init tools empty_heap)"
  let ?h = "snd (ToolUsageTracker_init tools empty_heap)"
  have reg: "dict_contains (dicts ?h (usage_count ?t))
      (dict_get [(''name'', ''check_hawkins_records'')] ''name'' ''unknown'')"
    by (simp add: ToolUsageTracker_init_def Let_def tools_def)
  have c0: "dict_getitem (dicts ?h (usage_count ?t)) ''check_hawkins_records'' = Inr 0"
    and d0: "dict_getitem (dicts ?h (usage_count ?t)) ''consult_demogorgon'' = Inr 0"
    and l0: "lists ?h (tool_sequences ?t) = []"
    by (simp_all add: ToolUsageTracker_init_def Let_def tools_def)
  from on_tool_start_counts_registered[of ?h ?t "[(''name'', ''check_hawkins_records'')]" "''portal''"]
    reg
  obtain c h' where
    "dict_getitem (dicts ?h (usage_count ?t)) (dict_get [(''name'', ''check_hawkins_records'')] ''name'' ''unknown'') = Inr c"
    "on_tool_start ?t [(''name'', ''check_hawkins_records'')] ''portal'' ?h = Inr h'"
    "dict_getitem (dicts h' (usage_count ?t)) (dict_get [(''name'', ''check_hawkins_records'')] ''name'' ''unknown'') = Inr (c + 1)"
    "\<forall>k. k \<noteq> dict_get [(''name'', ''check_hawkins_records'')] ''name'' ''unknown'' \<longrightarrow>
        dict_getitem (dicts h' (usage_count ?t)) k = dict_getitem (dicts ?h (usage_count ?t)) k"
    "lists h' (tool_sequences ?t) =
       lists ?h (tool_sequences ?t) @ [dict_get [(''name'', ''check_hawkins_records'')] ''name'' ''unknown'']"
    by blast
  then have "on_tool_start ?t [(''name'', ''check_hawkins_records'')] ''portal'' ?h = Inr h' \<and>
     dict_getitem (dicts h' (usage_count ?t)) ''check_hawkins_records'' = Inr 1 \<and>
     dict_getitem (dicts h' (usage_count ?t)) ''consult_demogorgon'' = Inr 0 \<and>
     lists h' (tool_sequences ?t) = [''check_hawkins_records'']"
    using c0 d0 l0 by simp
  with reg show ?thesis by blast
qed

text \<open>
  Claim C3.  A call whose tool name is not a key of \<^verbatim>\<open>usage_count\<close> raises nothing and
  leaves the store, so the counts and the sequence, as it was.
\<close>

theorem on_tool_start_ignores_unregistered:
  "\<not> dict_contains (dicts h (usage_count self)) (dict_get serialized ''name'' ''unknown'') \<Longrightarrow>
   on_tool_start self serialized input_str h = Inr h"
  by (simp add: on_tool_start_def Let_def)

theorem on_tool_start_ignores_unregistered_witness:
  "\<not> dict_contains (dicts (snd (ToolUsageTracker_init [''a'', ''b'', ''c''] empty_heap))
        (usage_count (fst (ToolUsageTracker_init [''a'', ''b'', ''c''] empty_heap))))
      (dict_get [(''name'', ''z'')] ''name'' ''unknown'') \<and>
   on_tool_start (fst (ToolUsageTracker_init [''a'', ''b'', ''c''] empty_heap))
     [(''name'', ''z'')] ''input'' (snd (ToolUsageTracker_init [''a'', ''b'', ''c''] empty_heap)) =
   Inr (snd (ToolUsageTracker_init [''a'', ''b'', ''c''] empty_heap))"
proof -
  let ?t = "fst (ToolUsageTracker_init [''a'', ''b'', ''c''] empty_heap)"
  let ?h = "snd (ToolUsageTracker_init [''a'', ''b'', ''c''] empty_heap)"
  have unreg: "\<not> dict_contains (dicts ?h (usage_count ?t)) (dict_get [(''name'', ''z'')] ''name'' ''unknown'')"
    by (simp add: ToolUsageTracker_init_def Let_def)
  from unreg on_tool_start_ignores_unregistered[OF unreg, of "''input''"] show ?thesis
    by blast
qed

section \<open>A payload without a name\<close>

lemma dict_get_absent: "\<not> dict_contains d k \<Longrightarrow> dict_get d k dflt = dflt"
  by (induction d) auto

text \<open>
  Claim C10.  On a tracker built from the script's four tools, after any run of calls,
  a payload without the key \<^verbatim>\<open>"name"\<close> is given the name \<^verbatim>\<open>"unknown"\<close>, which is
  not a registered tool: the call raises nothing and leaves the store as it was.
\<close>

theorem on_tool_start_without_name:
  assumes "ToolUsageTracker_init tools h0 = (self, h)"
    and "run_events self evs h = Inr h'"
    and "\<not> dict_contains serialized ''name''"
  shows "dict_get serialized ''name'' ''unknown'' = ''unknown'' \<and>
         on_tool_start self serialized input_str h' = Inr h'"
proof -
  have name: "dict_get serialized ''name'' ''unknown'' = ''unknown''"
    using assms(3) by (rule dict_get_absent)
  have "set (dict_keys (dicts h (usage_count self))) = set tools"
    using comprehension_keys[of 0 "[]" tools]
    by (simp add: init_state(1)[OF assms(1)] dict_keys_def)
  moreover have "dict_keys (dicts h' (usage_count self)) = dict_keys (dicts h (usage_count self))"
    using run_events_invariant[of self evs h] assms(2) by auto
  ultimately have "\<not> dict_contains (dicts h' (usage_count self)) ''unknown''"
    by (simp add: dict_contains_keys tools_def)
  then show ?thesis
    by (simp add: name on_tool_start_unregistered)
qed

theorem on_tool_start_without_name_witness:
  "\<not> dict_contains [(''description'', ''Search Hawkins historical records'')] ''name'' \<and>
   run_events (fst (ToolUsageTracker_init tools empty_heap))
     [([(''name'', ''consult_demogorgon'')], ''portal'')]
     (snd (ToolUsageTracker_init tools empty_heap)) =
   Inr ((snd (ToolUsageTracker_init tools empty_heap))
        \<lparr>dicts := (dicts (snd (ToolUsageTracker_init tools empty_heap)))
            (0 := [(''consult_demogorgon'', 1), (''check_hawkins_records'', 0),
                   (''cast_interdimensional_spell'', 0), (''gather_party_wisdom'', 0)]),
         lists := (lists (snd (ToolUsageTracker_init tools empty_heap)))
            (1 := [''consult_demogorgon''])\<rparr>) \<and>
   on_tool_start (fst (ToolUsageTracker_init tools empty_heap))
     [(''description'', ''Search Hawkins historical records'')] ''query''
     ((snd (ToolUsageTracker_init tools empty_heap))
        \<lparr>dicts := (dicts (snd (ToolUsageTracker_init tools empty_heap)))
            (0 := [(''consult_demogorgon'', 1), (''check_hawkins_records'', 0),
                   (''cast_interdimensional_spell'', 0), (''gather_party_wisdom'', 0)]),
         lists := (lists (snd (ToolUsageTracker_init tools empty_heap)))
            (1 := [''consult_demogorgon''])\<rparr>) =
   Inr ((snd (ToolUsageTracker_init tools empty_heap))
        \<lparr>dicts := (dicts (snd (ToolUsageTracker_init tools empty_heap)))
            (0 := [(''consult_demogorgon'', 1), (''check_hawkins_records'', 0),
                   (''cast_interdimensional_spell'', 0), (''gather_party_wisdom'', 0)]),
         lists := (lists (snd (ToolUsageTracker_init tools empty_heap)))
            (1 := [''consult_demogorgon''])\<rparr>)"
proof -
  let ?t = "fst (ToolUsageTracker_init tools empty_heap)"
  let ?h = "snd (ToolUsageTracker_init tools empty_heap)"
  let ?h' = "?h\<lparr>dicts := (dicts ?h)
            (0 := [(''consult_demogorgon'', 1), (''check_hawkins_records'', 0),
                   (''cast_interdimensional_spell'', 0), (''gather_party_wisdom'', 0)]),
         lists := (lists ?h) (1 := [''consult_demogorgon''])\<rparr>"
  have init: "ToolUsageTracker_init tools empty_heap = (?t, ?h)"
    by simp
  have run: "run_events ?t [([(''name'', ''consult_demogorgon'')], ''portal'')] ?h = Inr ?h'"
    by (simp add: ToolUsageTracker_init_def on_tool_start_def Let_def tools_def empty_heap_def)
  have noname: "\<not> dict_contains [(''description'', ''Search Hawkins historical records'')] ''name''"
    by simp
  from on_tool_start_without_name[OF init run noname, of "''query''"] run noname
  show ?thesis by simp
qed


section \<open>Statistics\<close>

lemma max_loop_keep: "\<forall>x\<in>set xs. key x \<le> key best \<Longrightarrow> max_loop key best xs = best"
  by (induction xs) auto

lemma max_loop_first:
  "\<lbrakk>\<forall>p\<in>set pre. key p < key y; key best < key y; \<forall>q\<in>set post. key q \<le> key y\<rbrakk>
   \<Longrightarrow> max_loop key best (pre @ y # post) = y"
proof (induction pre arbitrary: best)
  case Nil
  then show ?case by (simp add: max_loop_keep)
next
  case (Cons p pre)
  then show ?case by simp
qed

lemma py_max_first:
  assumes "\<forall>p\<in>set pre. key p < key y" and "\<forall>q\<in>set post. key q \<le> key y"
  shows "py_max (pre @ y # post) key = Inr y"
proof (cases pre)
  case Nil
  then show ?thesis using assms(2) by (simp add: py_max_def max_loop_keep)
next
  case (Cons p pre')
  then show ?thesis using assms max_loop_first[of pre' key y p post] by (simp add: py_max_def)
qed

lemma py_max_nonempty: "xs \<noteq> [] \<Longrightarrow> \<exists>x. py_max xs key = Inr x"
  by (cases xs) (simp_all add: py_max_def)

lemma get_statistics_returns:
  "\<exists>m. get_statistics self h =
     (Inr \<lparr>total_tool_calls = py_sum (dict_values (dicts h (usage_count self))),
           tool_counts = usage_count self, most_used = m,
           stats_tool_sequences = tool_sequences self\<rparr>, h) \<and>
     m = (if dicts h (usage_count self) \<noteq> []
          then (case py_max (dicts h (usage_count self)) snd of
                  Inl e \<Rightarrow> None | Inr item \<Rightarrow> Some (fst item))
          else None)"
proof (cases "dicts h (usage_count self) = []")
  case True
  then show ?thesis by (simp add: get_statistics_def Let_def)
next
  case False
  from py_max_nonempty[OF False, of snd] obtain x where
    "py_max (dicts h (usage_count self)) snd = Inr x" by blast
  with False show ?thesis by (simp add: get_statistics_def Let_def)
qed

lemma setitem_head:
  "d \<noteq> [] \<Longrightarrow> \<exists>v' rest. dict_setitem d k v = (fst (hd d), v') # rest"
  by (cases d) auto

lemma comprehension_head:
  "d0 \<noteq> [] \<Longrightarrow> \<exists>v' rest. foldl (\<lambda>d n. dict_setitem d n v) d0 names = (fst (hd d0), v') # rest"
proof (induction names arbitrary: d0)
  case Nil
  then show ?case by (cases d0) auto
next
  case (Cons n names)
  from setitem_head[OF Cons.prems, of n v] obtain v' rest where
    e: "dict_setitem d0 n v = (fst (hd d0), v') # rest" by blast
  from Cons.IH[of "dict_setitem d0 n v"] e show ?case by simp
qed

lemma fresh_most_used:
  "py_max (foldl (\<lambda>d n. dict_setitem d n (0::int)) [(n, 0)] names) snd = Inr (n, 0)"
proof -
  let ?d = "foldl (\<lambda>d n. dict_setitem d n (0::int)) [(n, 0)] names"
  from comprehension_head[of "[(n, 0::int)]" 0 names] obtain v' rest where
    e: "?d = (n, v') # rest" by auto
  have z: "set (dict_values ?d) \<subseteq> {0}"
    by (rule comprehension_values) (simp add: dict_values_def)
  from z e have v': "v' = 0" and rest: "\<forall>q\<in>set rest. snd q \<le> 0"
    by (auto simp: dict_values_def)
  have "py_max ([] @ (n, 0) # rest) snd = Inr (n, 0)"
    using rest by (intro py_max_first) simp_all
  then show ?thesis
    by (simp add: e v')
qed

text \<open>
  Claim C4, as amended.  On a freshly constructed tracker \<^verbatim>\<open>get_statistics\<close> returns
  0 total calls and the empty sequence; \<^verbatim>\<open>most_used\<close> is the first registered tool
  (all counts tie at 0), and \<^verbatim>\<open>None\<close> only for a tracker of no tools.
\<close>

theorem fresh_statistics:
  assumes "ToolUsageTracker_init tool_names h0 = (self, h)"
  shows "get_statistics self h =
           (Inr \<lparr>total_tool_calls = 0, tool_counts = usage_count self,
                 most_used = (case tool_names of [] \<Rightarrow> None | n # rest \<Rightarrow> Some n),
                 stats_tool_sequences = tool_sequences self\<rparr>, h) \<and>
         lists h (tool_sequences self) = []"
proof -
  let ?d = "foldl (\<lambda>d n. dict_setitem d n (0::int)) [] tool_names"
  have d: "dicts h (usage_count self) = ?d"
    by (rule init_state(1)[OF assms])
  have total: "py_sum (dict_values (dicts h (usage_count self))) = 0"
    by (simp add: d py_sum_sum_list comprehension_sum)
  have m: "(if ?d \<noteq> [] then (case py_max ?d snd of Inl e \<Rightarrow> None | Inr item \<Rightarrow> Some (fst item))
            else None) = (case tool_names of [] \<Rightarrow> None | n # rest \<Rightarrow> Some n)"
  proof (cases tool_names)
    case Nil
    then show ?thesis by simp
  next
    case (Cons n names)
    from comprehension_head[of "[(n, 0::int)]" 0 names] have "?d \<noteq> []"
      by (auto simp: Cons)
    then show ?thesis
      using fresh_most_used[of n names] by (simp add: Cons)
  qed
  from get_statistics_returns[of self h] show ?thesis
    using total m init_state(2)[OF assms] by (auto simp: d)
qed

theorem fresh_statistics_witness:
  "get_statistics (fst (ToolUsageTracker_init tools empty_heap))
     (snd (ToolUsageTracker_init tools empty_heap)) =
   (Inr \<lparr>total_tool_calls = 0, tool_counts = 0, most_used = Some ''consult_demogorgon'',
         stats_tool_sequences = 1\<rparr>, snd (ToolUsageTracker_init tools empty_heap)) \<and>
   lists (snd (ToolUsageTracker_init tools empty_heap)) 1 = []"
proof -
  have init: "ToolUsageTracker_init tools empty_heap =
      (fst (ToolUsageTracker_init tools empty_heap), snd (ToolUsageTracker_init tools empty_heap))"
    by simp
  have a: "usage_count (fst (ToolUsageTracker_init tools empty_heap)) = 0"
    and b: "tool_sequences (fst (ToolUsageTracker_init tools empty_heap)) = 1"
    by (simp_all add: ToolUsageTracker_init_def Let_def empty_heap_def)
  have c: "(case tools of [] \<Rightarrow> None | n # rest \<Rightarrow> Some n) = Some ''consult_demogorgon''"
    by (simp add: tools_def)
  from fresh_statistics[OF init] show ?thesis
    by (simp add: a b c)
qed

text \<open>
  Claim C4 as first stated fails: on the script's fresh tracker \<^verbatim>\<open>most_used\<close> is \<^verbatim>\<open>consult_demogorgon\<close>, not
  \<^verbatim>\<open>None\<close>.
\<close>

theorem fresh_statistics_most_used_counterexample:
  "fst (get_statistics (fst (ToolUsageTracker_init tools empty_heap))
          (snd (ToolUsageTracker_init tools empty_heap))) =
     Inr \<lparr>total_tool_calls = 0, tool_counts = 0, most_used = Some ''consult_demogorgon'',
          stats_tool_sequences = 1\<rparr> \<and>
   fst (get_statistics (fst (ToolUsageTracker_init tools empty_heap))
          (snd (ToolUsageTracker_init tools empty_heap))) \<noteq>
     Inr \<lparr>total_tool_calls = 0, tool_counts = 0, most_used = None,
          stats_tool_sequences = 1\<rparr>"
  by (simp add: ToolUsageTracker_init_def get_statistics_def Let_def tools_def empty_heap_def
      py_sum_def py_max_def dict_values_def)


subsection \<open>The most used tool\<close>

lemma comprehension_keys_distinct:
  "\<lbrakk>distinct names; set (dict_keys d0) \<inter> set names = {}\<rbrakk>
   \<Longrightarrow> dict_keys (foldl (\<lambda>d n. dict_setitem d n v) d0 names) = dict_keys d0 @ names"
proof (induction names arbitrary: d0)
  case Nil
  then show ?case by simp
next
  case (Cons n names)
  have absent: "\<not> dict_contains d0 n"
    using Cons.prems(2) by (simp add: dict_contains_keys)
  have "dict_keys (foldl (\<lambda>d n. dict_setitem d n v) (dict_setitem d0 n v) names) =
        dict_keys (dict_setitem d0 n v) @ names"
    using Cons.prems by (intro Cons.IH) (auto simp: dict_keys_setitem_absent[OF absent])
  then show ?case
    by (simp add: dict_keys_setitem_absent[OF absent])
qed

lemma dict_get_nth:
  "\<lbrakk>distinct (dict_keys d); i < length d\<rbrakk> \<Longrightarrow> dict_get d (fst (d ! i)) dflt = snd (d ! i)"
proof (induction d arbitrary: i)
  case Nil
  then show ?case by simp
next
  case (Cons kv d)
  obtain k v where kv: "kv = (k, v)" by (cases kv)
  show ?case
  proof (cases i)
    case 0
    then show ?thesis by (simp add: kv)
  next
    case (Suc j)
    with Cons.prems have j: "j < length d" and dd: "distinct (dict_keys d)"
      and "k \<notin> set (dict_keys d)"
      by (auto simp: dict_keys_def kv)
    then have "fst (d ! j) \<noteq> k"
      by (metis dict_keys_def nth_map nth_mem length_map)
    then show ?thesis
      using Cons.IH[OF dd j] by (simp add: kv Suc)
  qed
qed

lemma most_used_first_maximal:
  assumes dk: "distinct (dict_keys d)"
    and i: "i < length d"
    and le: "\<forall>j<length d. dict_get d (dict_keys d ! j) 0 \<le> dict_get d (dict_keys d ! i) 0"
    and lt: "\<forall>j<i. dict_get d (dict_keys d ! j) 0 < dict_get d (dict_keys d ! i) 0"
  shows "py_max d snd = Inr (d ! i)"
proof -
  have cnt: "dict_get d (dict_keys d ! j) 0 = snd (d ! j)" if "j < length d" for j
    using dict_get_nth[OF dk that, of 0] that by (simp add: dict_keys_def)
  have split: "d = take i d @ d ! i # drop (Suc i) d"
    using i by (rule id_take_nth_drop)
  have pre: "\<forall>p\<in>set (take i d). snd p < snd (d ! i)"
  proof
    fix p assume "p \<in> set (take i d)"
    then obtain j where "j < i" "p = d ! j"
      using i by (auto simp: in_set_conv_nth)
    with lt cnt i show "snd p < snd (d ! i)" by (metis less_trans)
  qed
  have post: "\<forall>q\<in>set (drop (Suc i) d). snd q \<le> snd (d ! i)"
  proof
    fix q assume "q \<in> set (drop (Suc i) d)"
    then have "q \<in> set d" by (rule in_set_dropD)
    then obtain j where "j < length d" "q = d ! j"
      by (auto simp: in_set_conv_nth)
    with le cnt i show "snd q \<le> snd (d ! i)" by metis
  qed
  from py_max_first[OF pre post] split show ?thesis by simp
qed

text \<open>
  Claim C7.  On a tracker built from distinct tool names, after any run of calls,
  \<^verbatim>\<open>most_used\<close> is the tool whose count is maximal and that comes first, in the order
  of the tool list, among the tools with that count.
\<close>

theorem most_used_first_of_ties:
  assumes "distinct tool_names"
    and "ToolUsageTracker_init tool_names h0 = (self, h)"
    and "run_events self evs h = Inr h'"
    and "i < length tool_names"
    and "\<forall>j<length tool_names.
           dict_get (dicts h' (usage_count self)) (tool_names ! j) 0
             \<le> dict_get (dicts h' (usage_count self)) (tool_names ! i) 0"
    and "\<forall>j<i. dict_get (dicts h' (usage_count self)) (tool_names ! j) 0
             < dict_get (dicts h' (usage_count self)) (tool_names ! i) 0"
  shows "\<exists>st. get_statistics self h' = (Inr st, h') \<and> most_used st = Some (tool_names ! i)"
proof -
  let ?d = "dicts h' (usage_count self)"
  have "dict_keys (dicts h (usage_count self)) = tool_names"
    using comprehension_keys_distinct[of tool_names "[]" 0] assms(1)
    by (simp add: init_state(1)[OF assms(2)] dict_keys_def)
  moreover have "dict_keys ?d = dict_keys (dicts h (usage_count self))"
    using run_events_invariant[of self evs h] assms(3) by auto
  ultimately have keys: "dict_keys ?d = tool_names" by simp
  then have len: "length ?d = length tool_names"
    by (metis dict_keys_def length_map)
  have m: "py_max ?d snd = Inr (?d ! i)"
    using assms(1,4,5,6) by (intro most_used_first_maximal) (simp_all add: keys len)
  have f: "fst (?d ! i) = tool_names ! i"
    using keys assms(4) len by (metis dict_keys_def nth_map)
  have ne: "?d \<noteq> []"
    using len assms(4) by auto
  from get_statistics_returns[of self h'] show ?thesis
    using m f ne by auto
qed

theorem most_used_first_of_ties_witness:
  "\<exists>h'. run_events (fst (ToolUsageTracker_init [''a'', ''b''] empty_heap))
          [([(''name'', ''b'')], ''1''), ([(''name'', ''a'')], ''2''),
           ([(''name'', ''a'')], ''3''), ([(''name'', ''b'')], ''4'')]
          (snd (ToolUsageTracker_init [''a'', ''b''] empty_heap)) = Inr h' \<and>
        dicts h' (usage_count (fst (ToolUsageTracker_init [''a'', ''b''] empty_heap))) =
          [(''a'', 2), (''b'', 2)] \<and>
        (\<exists>st. get_statistics (fst (ToolUsageTracker_init [''a'', ''b''] empty_heap)) h' = (Inr st, h') \<and>
              most_used st = Some ''a'')"
proof -
  let ?t = "fst (ToolUsageTracker_init [''a'', ''b''] empty_heap)"
  let ?h = "snd (ToolUsageTracker_init [''a'', ''b''] empty_heap)"
  let ?evs = "[([(''name'', ''b'')], ''1''), ([(''name'', ''a'')], ''2''),
               ([(''name'', ''a'')], ''3''), ([(''name'', ''b'')], ''4'')]"
  have init: "ToolUsageTracker_init [''a'', ''b''] empty_heap = (?t, ?h)"
    by simp
  obtain h' where run: "run_events ?t ?evs ?h = Inr h'"
    and d: "dicts h' (usage_count ?t) = [(''a'', 2), (''b'', 2)]"
    by (simp add: ToolUsageTracker_init_def on_tool_start_def Let_def)
  have le: "\<forall>j<length [''a'', ''b''].
      dict_get (dicts h' (usage_count ?t)) ([''a'', ''b''] ! j) 0
        \<le> dict_get (dicts h' (usage_count ?t)) ([''a'', ''b''] ! 0) 0"
    by (simp add: d less_Suc_eq)
  have lt: "\<forall>j<0::nat. dict_get (dicts h' (usage_count ?t)) ([''a'', ''b''] ! j) 0
        < dict_get (dicts h' (usage_count ?t)) ([''a'', ''b''] ! 0) 0"
    by simp
  have "\<exists>st. get_statistics ?t h' = (Inr st, h') \<and> most_used st = Some ([''a'', ''b''] ! 0)"
    by (rule most_used_first_of_ties[OF _ init run _ le lt]) simp_all
  with run d show ?thesis by simp
qed


subsection \<open>What the returned dictionary refers to\<close>

text \<open>
  Claim C6, as amended.  \<^verbatim>\<open>get_statistics\<close> raises nothing and leaves the store as it
  was, but \<^verbatim>\<open>tool_counts\<close> and \<^verbatim>\<open>tool_sequences\<close> of its result are the tracker's
  own dictionary and list: a later call for a registered name shows in a result
  returned earlier (count plus 1, name appended); a call for any other name changes
  nothing.
\<close>

theorem get_statistics_returns_references:
  "\<exists>st. get_statistics self h = (Inr st, h) \<and>
        tool_counts st = usage_count self \<and>
        stats_tool_sequences st = tool_sequences self \<and>
        (dict_contains (dicts h (usage_count self)) (dict_get serialized ''name'' ''unknown'') \<longrightarrow>
           (\<exists>c h'. on_tool_start self serialized input_str h = Inr h' \<and>
              dict_getitem (dicts h (tool_counts st)) (dict_get serialized ''name'' ''unknown'') = Inr c \<and>
              dict_getitem (dicts h' (tool_counts st)) (dict_get serialized ''name'' ''unknown'') = Inr (c + 1) \<and>
              lists h' (stats_tool_sequences st) =
                lists h (stats_tool_sequences st) @ [dict_get serialized ''name'' ''unknown''])) \<and>
        (\<not> dict_contains (dicts h (usage_count self)) (dict_get serialized ''name'' ''unknown'') \<longrightarrow>
           on_tool_start self serialized input_str h = Inr h)"
proof -
  from get_statistics_returns[of self h] obtain st where
    st: "get_statistics self h = (Inr st, h)"
    and a: "tool_counts st = usage_count self"
    and b: "stats_tool_sequences st = tool_sequences self"
    by force
  show ?thesis
    using st a b on_tool_start_registered_effect[of h self serialized input_str]
      on_tool_start_unregistered[of h self serialized input_str]
    by (intro exI[of _ st]) (simp, blast)
qed

theorem get_statistics_returns_references_witness:
  "dict_contains (dicts (snd (ToolUsageTracker_init [''a''] empty_heap))
      (usage_count (fst (ToolUsageTracker_init [''a''] empty_heap))))
     (dict_get [(''name'', ''a'')] ''name'' ''unknown'') \<and>
   (\<exists>st h'. get_statistics (fst (ToolUsageTracker_init [''a''] empty_heap))
               (snd (ToolUsageTracker_init [''a''] empty_heap)) =
             (Inr st, snd (ToolUsageTracker_init [''a''] empty_heap)) \<and>
           on_tool_start (fst (ToolUsageTracker_init [''a''] empty_heap)) [(''name'', ''a'')] ''x''
               (snd (ToolUsageTracker_init [''a''] empty_heap)) = Inr h' \<and>
           dict_getitem (dicts h' (tool_counts st)) ''a'' = Inr 1 \<and>
           lists h' (stats_tool_sequences st) = [''a''])"
proof -
  let ?t = "fst (ToolUsageTracker_init [''a''] empty_heap)"
  let ?h = "snd (ToolUsageTracker_init [''a''] empty_heap)"
  have reg: "dict_contains (dicts ?h (usage_count ?t)) (dict_get [(''name'', ''a'')] ''name'' ''unknown'')"
    by (simp add: ToolUsageTracker_init_def Let_def)
  have d0: "dicts ?h (usage_count ?t) = [(''a'', 0)]" and l0: "lists ?h (tool_sequences ?t) = []"
    by (simp_all add: ToolUsageTracker_init_def Let_def)
  from get_statistics_returns_references[of ?t ?h "[(''name'', ''a'')]" "''x''"] reg
  obtain st c h' where
    "get_statistics ?t ?h = (Inr st, ?h)"
    "tool_counts st = usage_count ?t"
    "stats_tool_sequences st = tool_sequences ?t"
    "on_tool_start ?t [(''name'', ''a'')] ''x'' ?h = Inr h'"
    "dict_getitem (dicts ?h (tool_counts st)) (dict_get [(''name'', ''a'')] ''name'' ''unknown'') = Inr c"
    "dict_getitem (dicts h' (tool_counts st)) (dict_get [(''name'', ''a'')] ''name'' ''unknown'') = Inr (c + 1)"
    "lists h' (stats_tool_sequences st) =
       lists ?h (stats_tool_sequences st) @ [dict_get [(''name'', ''a'')] ''name'' ''unknown'']"
    by blast
  then have "get_statistics ?t ?h = (Inr st, ?h) \<and>
     on_tool_start ?t [(''name'', ''a'')] ''x'' ?h = Inr h' \<and>
     dict_getitem (dicts h' (tool_counts st)) ''a'' = Inr 1 \<and>
     lists h' (stats_tool_sequences st) = [''a'']"
    using d0 l0 by simp
  with reg show ?thesis by blast
qed

text \<open>
  Claim C6 as first stated fails: a result taken from a fresh tracker of the one tool \<^verbatim>\<open>a\<close> refers to the counts
  \<^verbatim>\<open>{a: 0}\<close> and the empty sequence; after one call for \<^verbatim>\<open>a\<close> the same
  references give \<^verbatim>\<open>{a: 1}\<close> and \<^verbatim>\<open>[a]\<close>.
\<close>

theorem statistics_snapshot_aliases_counterexample:
  "fst (get_statistics (fst (ToolUsageTracker_init [''a''] empty_heap))
          (snd (ToolUsageTracker_init [''a''] empty_heap))) =
     Inr \<lparr>total_tool_calls = 0, tool_counts = 0, most_used = Some ''a'',
          stats_tool_sequences = 1\<rparr> \<and>
   dicts (snd (ToolUsageTracker_init [''a''] empty_heap)) 0 = [(''a'', 0)] \<and>
   lists (snd (ToolUsageTracker_init [''a''] empty_heap)) 1 = [] \<and>
   on_tool_start (fst (ToolUsageTracker_init [''a''] empty_heap)) [(''name'', ''a'')] ''x''
       (snd (ToolUsageTracker_init [''a''] empty_heap)) =
     Inr ((snd (ToolUsageTracker_init [''a''] empty_heap))
          \<lparr>dicts := (dicts (snd (ToolUsageTracker_init [''a''] empty_heap)))(0 := [(''a'', 1)]),
           lists := (lists (snd (ToolUsageTracker_init [''a''] empty_heap)))(1 := [''a''])\<rparr>) \<and>
   dicts ((snd (ToolUsageTracker_init [''a''] empty_heap))
          \<lparr>dicts := (dicts (snd (ToolUsageTracker_init [''a''] empty_heap)))(0 := [(''a'', 1)]),
           lists := (lists (snd (ToolUsageTracker_init [''a''] empty_heap)))(1 := [''a''])\<rparr>) 0
     = [(''a'', 1)] \<and>
   lists ((snd (ToolUsageTracker_init [''a''] empty_heap))
          \<lparr>dicts := (dicts (snd (ToolUsageTracker_init [''a''] empty_heap)))(0 := [(''a'', 1)]),
           lists := (lists (snd (ToolUsageTracker_init [''a''] empty_heap)))(1 := [''a''])\<rparr>) 1
     = [''a'']"
  by (simp add: ToolUsageTracker_init_def get_statistics_def on_tool_start_def Let_def
      empty_heap_def py_sum_def py_max_def dict_values_def)


section \<open>The keyword tools\<close>








subsection \<open>Two of the script's inputs\<close>









section \<open>The random selection\<close>

lemma randbelow_less: "0 < n \<Longrightarrow> fst (randbelow n g) < n"
  by (simp add: randbelow_def)

lemma swap_out_mset:
  assumes "j < length T"
  shows "add_mset (T ! j) (mset ((butlast T)[j := last T])) = mset T"
proof -
  from assms have ne: "T \<noteq> []" by auto
  then have T: "T = butlast T @ [last T]" by simp
  show ?thesis
  proof (cases "j < length (butlast T)")
    case True
    then have "butlast T ! j = T ! j" by (simp add: nth_butlast)
    then have "mset ((butlast T)[j := last T]) = add_mset (last T) (mset (butlast T) - {#T ! j#})"
      using True by (simp add: mset_update)
    moreover have "T ! j \<in># mset (butlast T)"
      using True \<open>butlast T ! j = T ! j\<close> by (metis nth_mem set_mset_mset)
    moreover have "mset T = add_mset (last T) (mset (butlast T))"
      by (subst T) simp
    ultimately show ?thesis by simp
  next
    case False
    with assms have j: "j = length (butlast T)" by simp
    then have "T ! j = last T" using ne by (simp add: last_conv_nth)
    moreover have "(butlast T)[j := last T] = butlast T"
      by (rule list_update_beyond) (simp add: j)
    moreover have "mset T = add_mset (last T) (mset (butlast T))"
      by (subst T) simp
    ultimately show ?thesis by simp
  qed
qed

lemma sample_step_invariant:
  assumes "i < n" and "length pool = n"
  shows "case sample_step n (result, pool, g) i of (result', pool', g') \<Rightarrow>
           length result' = Suc (length result) \<and> length pool' = n \<and>
           mset (result' @ take (n - Suc i) pool') = mset (result @ take (n - i) pool)"
proof -
  let ?m = "n - i"
  let ?j = "fst (randbelow ?m g)"
  let ?T = "take ?m pool"
  have m: "0 < ?m" "?m \<le> length pool" using assms by simp_all
  have j: "?j < ?m" using m(1) by (rule randbelow_less)
  have lenT: "length ?T = ?m" using m(2) by simp
  have Tj: "?T ! ?j = pool ! ?j" using j by simp
  have "?T \<noteq> []" using lenT m(1) by auto
  then have "last ?T = ?T ! (length ?T - 1)" by (rule last_conv_nth)
  also have "\<dots> = pool ! (?m - 1)" using m(1) by (simp only: lenT) simp
  finally have lastT: "last ?T = pool ! (?m - 1)" .
  have bl: "butlast ?T = take (?m - 1) pool"
    using m by (simp add: butlast_take)
  have "take (n - Suc i) (pool[?j := pool ! (?m - 1)]) = (butlast ?T)[?j := last ?T]"
    by (simp add: take_update_swap bl lastT)
  moreover have "add_mset (?T ! ?j) (mset ((butlast ?T)[?j := last ?T])) = mset ?T"
    using j lenT by (intro swap_out_mset) simp
  ultimately have "mset (take (n - Suc i) (pool[?j := pool ! (?m - 1)])) + {#pool ! ?j#} = mset ?T"
    by (simp add: Tj)
  then show ?thesis
    using assms by (auto simp add: sample_step_def split: prod.splits)
qed

lemma sample_loop_invariant:
  assumes "k \<le> length population"
  shows "case foldl (sample_step (length population)) ([], population, g) [0..<k] of
           (result, pool, g') \<Rightarrow>
             length result = k \<and> length pool = length population \<and>
             mset (result @ take (length population - k) pool) = mset population"
  using assms
proof (induction k)
  case 0
  then show ?case by simp
next
  case (Suc k)
  obtain result pool g1 where
    st: "foldl (sample_step (length population)) ([], population, g) [0..<k] = (result, pool, g1)"
    by (cases "foldl (sample_step (length population)) ([], population, g) [0..<k]")
  from Suc have inv: "length result = k" "length pool = length population"
    "mset (result @ take (length population - k) pool) = mset population"
    by (simp_all add: st)
  have "k < length population" using Suc.prems by simp
  from sample_step_invariant[OF this inv(2), of result g1] inv show ?case
    by (simp add: st split: prod.splits)
qed

lemma random_sample_distinct:
  assumes "distinct population" and "k \<le> length population"
  shows "\<exists>result g'. random_sample population k g = (Inr result, g') \<and>
           length result = k \<and> distinct result \<and> set result \<subseteq> set population"
proof -
  obtain result pool g' where
    st: "foldl (sample_step (length population)) ([], population, g) [0..<k] = (result, pool, g')"
    by (cases "foldl (sample_step (length population)) ([], population, g) [0..<k]")
  from sample_loop_invariant[OF assms(2), of g] have len: "length result = k"
    and ms: "mset (result @ take (length population - k) pool) = mset population"
    by (simp_all add: st)
  from ms assms(1) have "distinct (result @ take (length population - k) pool)"
    by (metis mset_eq_imp_distinct_iff)
  then have d: "distinct result" by simp
  from ms have "set (result @ take (length population - k) pool) = set population"
    by (rule mset_eq_setD)
  then have s: "set result \<subseteq> set population" by auto
  show ?thesis
    using assms(2) len d s by (simp add: random_sample_def Let_def st)
qed

lemma spells_distinct: "distinct (spells problem)" and spells_length: "length (spells problem) = 4"
  by (simp_all add: spells_def)


lemma creativity_multiplier_valid:
  "level \<in> {''low'', ''medium'', ''high''} \<Longrightarrow>
   dict_getitem [(''low'', 1::nat), (''medium'', 2), (''high'', 3)] level =
     Inr (if level = ''low'' then 1 else if level = ''medium'' then 2 else 3)"
  by auto

lemma creativity_multiplier_invalid:
  "level \<notin> {''low'', ''medium'', ''high''} \<Longrightarrow>
   dict_getitem [(''low'', 1::nat), (''medium'', 2), (''high'', 3)] level = Inl (KeyError level)"
  by auto

text \<open>
  Claim C9.  For each of the levels \<^verbatim>\<open>low\<close>, \<^verbatim>\<open>medium\<close>, \<^verbatim>\<open>high\<close>, whatever the
  random generator draws, \<^verbatim>\<open>cast_interdimensional_spell\<close> raises nothing and selects
  exactly 1, 2 or 3 responses, pairwise distinct, from its list of candidates, which
  has at least 3 entries; it returns them joined by newlines.
\<close>

theorem cast_spell_selects_distinct:
  assumes "level \<in> {''low'', ''medium'', ''high''}"
  shows "\<exists>selected g'.
     selected_spells problem (Some level) g = (Inr selected, g') \<and>
     cast_interdimensional_spell problem (Some level) g = (Inr (str_join [CHR 0x0A] selected), g') \<and>
     length selected = (if level = ''low'' then 1 else if level = ''medium'' then 2 else 3) \<and>
     distinct selected \<and> set selected \<subseteq> set (spells problem) \<and>
     3 \<le> length (spells problem)"
proof -
  let ?m = "if level = ''low'' then 1 else if level = ''medium'' then 2 else (3::nat)"
  have k: "min ?m (length (spells problem)) = ?m"
    by (simp add: spells_length)
  have le: "?m \<le> length (spells problem)"
    by (simp add: spells_length)
  from random_sample_distinct[OF spells_distinct le, of g] obtain selected g' where
    r: "random_sample (spells problem) ?m g = (Inr selected, g')"
    and p: "length selected = ?m" "distinct selected" "set selected \<subseteq> set (spells problem)"
    by blast
  have sel: "selected_spells problem (Some level) g = (Inr selected, g')"
    unfolding selected_spells_def Let_def
    by (simp only: option.case creativity_multiplier_valid[OF assms] sum.case k r)
  have cast: "cast_interdimensional_spell problem (Some level) g =
      (Inr (str_join [CHR 0x0A] selected), g')"
    by (simp add: cast_interdimensional_spell_def sel)
  show ?thesis
    using sel cast p by (simp add: spells_length)
qed

theorem cast_spell_selects_distinct_witness:
  "''high'' \<in> {''low'', ''medium'', ''high''} \<and>
   (\<exists>selected g'. selected_spells ''the portal'' (Some ''high'') (sconst 0) = (Inr selected, g') \<and>
      length selected = 3 \<and> distinct selected \<and> set selected \<subseteq> set (spells ''the portal''))"
proof -
  have h: "''high'' \<in> {''low'', ''medium'', ''high''}" by simp
  from cast_spell_selects_distinct[OF h, of "''the portal''" "sconst 0"] h show ?thesis
    by auto
qed

text \<open>
  Claim C5, as amended.  With a level other than \<^verbatim>\<open>low\<close>, \<^verbatim>\<open>medium\<close>, \<^verbatim>\<open>high\<close> the
  call raises \<^verbatim>\<open>KeyError\<close> for that level, and the state of the random generator, the
  only shared state the tool touches, is as before the call.
\<close>

theorem cast_spell_unrecognised_level:
  assumes "level \<notin> {''low'', ''medium'', ''high''}"
  shows "cast_interdimensional_spell problem (Some level) g = (Inl (KeyError level), g)"
proof -
  have "selected_spells problem (Some level) g = (Inl (KeyError level), g)"
    unfolding selected_spells_def Let_def
    by (simp only: option.case creativity_multiplier_invalid[OF assms] sum.case)
  then show ?thesis
    by (simp add: cast_interdimensional_spell_def)
qed

theorem cast_spell_unrecognised_level_witness:
  "''extreme'' \<notin> {''low'', ''medium'', ''high''} \<and>
   cast_interdimensional_spell ''the portal'' (Some ''extreme'') (sconst 0) =
     (Inl (KeyError ''extreme''), sconst 0)"
proof -
  have h: "''extreme'' \<notin> {''low'', ''medium'', ''high''}" by simp
  from cast_spell_unrecognised_level[OF h, of "''the portal''" "sconst 0"] h show ?thesis
    by blast
qed

text \<open>
  Claim C5 as first stated fails: the level \<^verbatim>\<open>extreme\<close> raises \<^verbatim>\<open>KeyError\<close>, not \<^verbatim>\<open>InvalidParameter\<close>.
\<close>

theorem cast_spell_invalid_parameter_counterexample:
  "fst (cast_interdimensional_spell ''the portal'' (Some ''extreme'') (sconst 0)) =
     Inl (KeyError ''extreme'') \<and>
   fst (cast_interdimensional_spell ''the portal'' (Some ''extreme'') (sconst 0)) \<noteq>
     Inl InvalidParameter"
  by (simp add: cast_interdimensional_spell_def selected_spells_def)


end
